theory Spec2Isabelle
  imports
    Main
    "HOL-Library.Signed_Division"
    "HOL-Library.Option_ord"
    "HOL-Library.Product_Lexorder"
begin

section \<open>The uploads store: repository scans and dirty records\<close>

text \<open>
  A shallow embedding of \<^verbatim>\<open>internal/codeintel/uploads/internal/store/store_repositories.go\<close>.
  Every operation of that file is one SQL statement sent to Postgres, so the embedding is
  the relational meaning of each statement over a record of the tables it reads and writes,
  and the Go function around it.

  Conventions.
  \<^item> A \<open>timestamp\<close> is a Postgres timestamp: an integer number of microseconds.
    The \<open>now\<close> argument of the Go functions is the \<^verbatim>\<open>time.Time\<close> as Postgres stores it.
  \<^item> A \<open>duration\<close> is a Go \<^verbatim>\<open>time.Duration\<close>: an integer number of nanoseconds.
    Go's \<^verbatim>\<open>/\<close> on integers truncates toward zero; that is \<open>sdiv\<close>.
  \<^item> A table whose statement uses \<^verbatim>\<open>ON CONFLICT (repository_id)\<close> has a unique
    \<^verbatim>\<open>repository_id\<close> and is a map from repository id to the rest of the row. The other
    tables are lists of rows. \<^verbatim>\<open>repo.id\<close> is the primary key of \<^verbatim>\<open>repo\<close>; a property
    that needs the ids of the rows to be distinct says so.
  \<^item> Token columns are unbounded integers, and the timestamp columns that the statements
    write are never null.
  \<^item> What a Go function reads from its environment is an argument of its model: the
    failure of the store, if any (\<open>fault\<close>), the clock of Postgres (\<open>NOW\<close>) and the
    clock of the process (\<open>clock\<close>).
\<close>

type_synonym timestamp = int
type_synonym duration = int

definition Second :: duration where
  "Second = 1000000000"

definition second_interval :: int where
  \<comment> \<open>\<^verbatim>\<open>'1 second'::interval\<close> in microseconds\<close>
  "second_interval = 1000000"

subsection \<open>Tables\<close>

record repo_row =
  repo_id :: int
  repo_name :: string
  deleted_at :: "timestamp option"
  blocked :: "string option"
  stars :: "int option"

record policy_row =
  policy_id :: int
  repository_id :: "int option"
  repository_patterns :: "string list option"
  indexing_enabled :: bool

record pattern_lookup_row =
  lookup_policy_id :: int
  lookup_repo_id :: int

record upload_row =
  upload_id :: int
  upload_repository_id :: int
  upload_state :: string

record dirty_row =
  dirty_token :: int
  update_token :: int
  set_dirty_at :: timestamp

text \<open>
  The scan ledgers (\<^verbatim>\<open>lsif_last_index_scan\<close>, \<^verbatim>\<open>lsif_last_retention_scan\<close>, ...) are
  addressed by the table name and the column name the statement is instantiated with.
\<close>

record db =
  repo :: "repo_row list"
  lsif_configuration_policies :: "policy_row list"
  lsif_configuration_policies_repository_pattern_lookup :: "pattern_lookup_row list"
  lsif_uploads :: "upload_row list"
  lsif_dirty_repositories :: "int \<rightharpoonup> dirty_row"
  scan_ledger :: "string \<times> string \<Rightarrow> (int \<rightharpoonup> timestamp)"

subsection \<open>Errors and the database handle\<close>

datatype error = ErrUnknownRepository | StoreError string

type_synonym 'a statement = "db \<Rightarrow> error + ('a \<times> db)"

text \<open>
  Modelled from the spec: the database handle (\<^verbatim>\<open>s.db.Query\<close>, \<^verbatim>\<open>s.db.Exec\<close> and
  the \<^verbatim>\<open>basestore.Scan*\<close> helpers that read its rows) is not under src/. Following
  sections 5 and 7 of the spec, a call is one atomic statement: either the store fails
  (\<open>fault\<close> is the failure, any timeout, connection loss or rejected statement) and nothing
  is written, or the statement runs to its end and its rows are handed to the caller.
\<close>

definition Query :: "string option \<Rightarrow> 'a statement \<Rightarrow> db \<Rightarrow> (error + 'a) \<times> db" where
  "Query fault stmt d =
     (case fault of
        Some msg \<Rightarrow> (Inl (StoreError msg), d)
      | None \<Rightarrow>
          (case stmt d of
             Inl e \<Rightarrow> (Inl e, d)
           | Inr (rows, d') \<Rightarrow> (Inr rows, d')))"

text \<open>
  Modelled from the spec: \<^verbatim>\<open>s.db.Exec\<close>, as \<open>Query\<close>, for a statement whose rows are not
  read; the caller gets the error or nil.
\<close>

definition Exec :: "string option \<Rightarrow> unit statement \<Rightarrow> db \<Rightarrow> error option \<times> db" where
  "Exec fault stmt d =
     (case Query fault stmt d of
        (Inl e, d') \<Rightarrow> (Some e, d')
      | (Inr _, d') \<Rightarrow> (None, d'))"

text \<open>\<^verbatim>\<open>LIMIT n\<close>: Postgres rejects a negative count.\<close>

definition sql_limit :: "int \<Rightarrow> 'a list \<Rightarrow> error + 'a list" where
  "sql_limit n rows =
     (if n < 0 then Inl (StoreError ''LIMIT must not be negative'')
      else Inr (take (nat n) rows))"

subsection \<open>SetRepositoryAsDirty\<close>

text \<open>
  \<^verbatim>\<open>INSERT INTO lsif_dirty_repositories (repository_id, dirty_token, update_token)
  VALUES (%s, 1, 0)
  ON CONFLICT (repository_id) DO UPDATE SET
      dirty_token = lsif_dirty_repositories.dirty_token + 1,
      set_dirty_at = CASE
          WHEN lsif_dirty_repositories.update_token = lsif_dirty_repositories.dirty_token THEN NOW()
          ELSE lsif_dirty_repositories.set_dirty_at
      END\<close>

  \<open>NOW\<close> is the store's clock. The insert names no value for \<^verbatim>\<open>set_dirty_at\<close>, so a new
  row gets the column's default; the table's declaration is not under src/, and the default
  is the parameter \<open>set_dirty_at_default\<close>.
\<close>

definition setRepositoryAsDirtyQuery :: "timestamp \<Rightarrow> timestamp \<Rightarrow> int \<Rightarrow> unit statement" where
  "setRepositoryAsDirtyQuery NOW set_dirty_at_default repositoryID d =
     (let row' =
        (case lsif_dirty_repositories d repositoryID of
           None \<Rightarrow>
             \<lparr>dirty_token = 1, update_token = 0, set_dirty_at = set_dirty_at_default\<rparr>
         | Some old \<Rightarrow>
             old\<lparr>dirty_token := dirty_token old + 1,
                 set_dirty_at :=
                   (if update_token old = dirty_token old then NOW else set_dirty_at old)\<rparr>)
      in Inr ((), d\<lparr>lsif_dirty_repositories :=
                      (lsif_dirty_repositories d)(repositoryID \<mapsto> row')\<rparr>))"

definition SetRepositoryAsDirty ::
  "string option \<Rightarrow> timestamp \<Rightarrow> timestamp \<Rightarrow> int \<Rightarrow> db \<Rightarrow> error option \<times> db" where
  "SetRepositoryAsDirty fault NOW set_dirty_at_default repositoryID d =
     Exec fault (setRepositoryAsDirtyQuery NOW set_dirty_at_default repositoryID) d"

subsection \<open>RepoName\<close>

text \<open>\<^verbatim>\<open>SELECT name FROM repo WHERE id = %s\<close>\<close>

definition repoNameQuery :: "int \<Rightarrow> string list statement" where
  "repoNameQuery repositoryID d =
     Inr (map repo_name (filter (\<lambda>r. repo_id r = repositoryID) (repo d)), d)"

text \<open>
  Modelled from the spec: \<^verbatim>\<open>basestore.ScanFirstString\<close> and \<^verbatim>\<open>basestore.ScanFirstInt\<close>
  are not under src/. As their callers use them, they give the value of the first row and
  whether there is one (the zero value and false when there is none), or the error of the
  query; section 7 of the spec keeps "unknown resource" apart from "zero results".
\<close>

definition ScanFirst :: "'a \<Rightarrow> (error + 'a list) \<times> db \<Rightarrow> (error + 'a \<times> bool) \<times> db" where
  "ScanFirst zero res =
     (case res of
        (Inl e, d) \<Rightarrow> (Inl e, d)
      | (Inr [], d) \<Rightarrow> (Inr (zero, False), d)
      | (Inr (x # _), d) \<Rightarrow> (Inr (x, True), d))"

definition RepoName :: "string option \<Rightarrow> int \<Rightarrow> db \<Rightarrow> (error + string) \<times> db" where
  "RepoName fault repositoryID d =
     (case ScanFirst [] (Query fault (repoNameQuery repositoryID) d) of
        (Inl err, d') \<Rightarrow> (Inl err, d')
      | (Inr (name, exists), d') \<Rightarrow>
          if \<not> exists then (Inl ErrUnknownRepository, d') else (Inr name, d'))"

subsection \<open>GetRepositoriesForIndexScan\<close>

text \<open>
  The statement \<^verbatim>\<open>getRepositoriesForIndexScanQuery\<close>, one common table expression after
  the other.

  \<^verbatim>\<open>EXISTS (SELECT 1 FROM lsif_configuration_policies p WHERE p.indexing_enabled AND
  p.repository_id IS NULL AND p.repository_patterns IS NULL AND %s)\<close>, the last
  placeholder being \<open>allowGlobalPolicies\<close>.
\<close>

definition global_policy_exists :: "bool \<Rightarrow> db \<Rightarrow> bool" where
  "global_policy_exists allowGlobalPolicies d =
     list_ex
       (\<lambda>p. indexing_enabled p \<and> repository_id p = None \<and> repository_patterns p = None \<and>
            allowGlobalPolicies)
       (lsif_configuration_policies d)"

text \<open>\<^verbatim>\<open>ORDER BY stars DESC NULLS LAST, id\<close> as an ascending sort key.\<close>

definition stars_order :: "repo_row \<Rightarrow> (nat \<times> int) \<times> int" where
  "stars_order r =
     ((case stars r of None \<Rightarrow> (1, 0) | Some n \<Rightarrow> (0, - n)), repo_id r)"

text \<open>
  First branch of \<^verbatim>\<open>repositories_matching_policy\<close>: every row of \<^verbatim>\<open>repo\<close> when a
  global policy exists, ordered, and cut by \<open>limitExpression\<close>, which is
  \<^verbatim>\<open>LIMIT *repositoryMatchLimit\<close> when the pointer is not nil and empty otherwise.
\<close>

definition global_policy_repositories :: "bool \<Rightarrow> int option \<Rightarrow> db \<Rightarrow> error + int list" where
  "global_policy_repositories allowGlobalPolicies limitExpression d =
     (let rows =
        map repo_id
          (sort_key stars_order
             (filter (\<lambda>r. global_policy_exists allowGlobalPolicies d) (repo d)))
      in case limitExpression of
           None \<Rightarrow> Inr rows
         | Some n \<Rightarrow> sql_limit n rows)"

text \<open>
  Second branch:
  \<^verbatim>\<open>SELECT p.repository_id FROM lsif_configuration_policies p
  WHERE p.indexing_enabled AND p.repository_id IS NOT NULL\<close>
\<close>

definition fixed_policy_repositories :: "db \<Rightarrow> int list" where
  "fixed_policy_repositories d =
     List.map_filter
       (\<lambda>p. if indexing_enabled p then repository_id p else None)
       (lsif_configuration_policies d)"

text \<open>
  Third branch:
  \<^verbatim>\<open>SELECT rpl.repo_id FROM lsif_configuration_policies p
  JOIN lsif_configuration_policies_repository_pattern_lookup rpl ON rpl.policy_id = p.id
  WHERE p.indexing_enabled\<close>
\<close>

definition pattern_policy_repositories :: "db \<Rightarrow> int list" where
  "pattern_policy_repositories d =
     concat
       (map
          (\<lambda>p. map lookup_repo_id
                 (filter (\<lambda>rpl. lookup_policy_id rpl = policy_id p)
                    (lsif_configuration_policies_repository_pattern_lookup d)))
          (filter indexing_enabled (lsif_configuration_policies d)))"

definition repositories_matching_policy :: "bool \<Rightarrow> int option \<Rightarrow> db \<Rightarrow> error + int list" where
  "repositories_matching_policy allowGlobalPolicies limitExpression d =
     (case global_policy_repositories allowGlobalPolicies limitExpression d of
        Inl e \<Rightarrow> Inl e
      | Inr global \<Rightarrow>
          Inr (global @ fixed_policy_repositories d @ pattern_policy_repositories d))"

text \<open>
  \<^verbatim>\<open>SELECT r.id FROM repo r WHERE r.deleted_at IS NULL AND r.blocked IS NULL AND
  r.id IN (SELECT id FROM repositories_matching_policy)\<close>
\<close>

definition candidate_repositories :: "int list \<Rightarrow> db \<Rightarrow> int list" where
  "candidate_repositories matching d =
     map repo_id
       (filter
          (\<lambda>r. deleted_at r = None \<and> blocked r = None \<and> repo_id r \<in> set matching)
          (repo d))"

text \<open>
  \<^verbatim>\<open>(%s - lrs.{column_name} > (%s * '1 second'::interval)) IS DISTINCT FROM FALSE\<close>
  on the left-joined ledger column: true when the join found no row.
\<close>

definition not_checked_recently :: "timestamp \<Rightarrow> int \<Rightarrow> timestamp option \<Rightarrow> bool" where
  "not_checked_recently now seconds last_scan_at =
     (case last_scan_at of
        None \<Rightarrow> True
      | Some t \<Rightarrow> now - t > seconds * second_interval)"

text \<open>\<^verbatim>\<open>ORDER BY lrs.{column_name} NULLS FIRST, cr.id\<close> and \<^verbatim>\<open>LIMIT %s\<close>.\<close>

definition scan_order :: "(int \<rightharpoonup> timestamp) \<Rightarrow> int \<Rightarrow> timestamp option \<times> int" where
  "scan_order lrs i = (lrs i, i)"

definition repositories_cte ::
  "(int \<rightharpoonup> timestamp) \<Rightarrow> timestamp \<Rightarrow> int \<Rightarrow> int \<Rightarrow> int list \<Rightarrow> error + int list" where
  "repositories_cte lrs now seconds limit crs =
     sql_limit limit
       (sort_key (scan_order lrs)
          (filter (\<lambda>i. not_checked_recently now seconds (lrs i)) crs))"

text \<open>
  \<^verbatim>\<open>INSERT INTO t (repository_id, c) SELECT r.id, now FROM repositories r
  ON CONFLICT (repository_id) DO UPDATE SET c = now RETURNING repository_id\<close>
\<close>

definition upsert_last_scan :: "timestamp \<Rightarrow> int list \<Rightarrow> (int \<rightharpoonup> timestamp) \<Rightarrow> (int \<rightharpoonup> timestamp)" where
  "upsert_last_scan now ids lrs = fold (\<lambda>i m. m(i \<mapsto> now)) ids lrs"

definition getRepositoriesForIndexScanQuery ::
  "string \<Rightarrow> bool \<Rightarrow> int option \<Rightarrow> string \<Rightarrow> timestamp \<Rightarrow> int \<Rightarrow> int \<Rightarrow> int list statement" where
  "getRepositoriesForIndexScanQuery column allowGlobalPolicies limitExpression table now seconds limit d =
     (case repositories_matching_policy allowGlobalPolicies limitExpression d of
        Inl e \<Rightarrow> Inl e
      | Inr matching \<Rightarrow>
          (let lrs = scan_ledger d (table, column) in
           case repositories_cte lrs now seconds limit (candidate_repositories matching d) of
             Inl e \<Rightarrow> Inl e
           | Inr ids \<Rightarrow>
               Inr (ids,
                    d\<lparr>scan_ledger :=
                        (scan_ledger d)((table, column) := upsert_last_scan now ids lrs)\<rparr>)))"

text \<open>
  Modelled from the spec: \<^verbatim>\<open>basestore.ScanInts\<close> is not under src/. It hands the returned
  identifiers over in the order of the rows, or the error of the query (section 4.2 of the
  spec: an upsert that returns identifiers).
\<close>

definition ScanInts :: "(error + int list) \<times> db \<Rightarrow> (error + int list) \<times> db" where
  "ScanInts res = res"

definition GetRepositoriesForIndexScan ::
  "string option \<Rightarrow> string \<Rightarrow> string \<Rightarrow> duration \<Rightarrow> bool \<Rightarrow> int option \<Rightarrow> int \<Rightarrow> timestamp \<Rightarrow>
     db \<Rightarrow> (error + int list) \<times> db" where
  "GetRepositoriesForIndexScan fault table column processDelay allowGlobalPolicies
       repositoryMatchLimit limit now d =
     ScanInts
       (Query fault
          (getRepositoriesForIndexScanQuery column allowGlobalPolicies repositoryMatchLimit
             table now (processDelay sdiv Second) limit)
          d)"

subsection \<open>SetRepositoriesForRetentionScan\<close>

text \<open>\<^verbatim>\<open>SELECT DISTINCT u.repository_id FROM lsif_uploads u WHERE u.state = 'completed'\<close>\<close>

definition retention_candidate_repositories :: "db \<Rightarrow> int list" where
  "retention_candidate_repositories d =
     remdups
       (map upload_repository_id
          (filter (\<lambda>u. upload_state u = ''completed'') (lsif_uploads d)))"

text \<open>
  The \<^verbatim>\<open>repositories\<close> expression of the retention statement joins the dirty table and
  asks for \<^verbatim>\<open>dr.update_token = dr.dirty_token\<close> besides the ledger condition.
\<close>

definition retention_repositories_cte ::
  "(int \<rightharpoonup> timestamp) \<Rightarrow> timestamp \<Rightarrow> int \<Rightarrow> int \<Rightarrow> db \<Rightarrow> error + int list" where
  "retention_repositories_cte lrs now seconds limit d =
     sql_limit limit
       (sort_key (scan_order lrs)
          (filter
             (\<lambda>i. case lsif_dirty_repositories d i of
                    None \<Rightarrow> False
                  | Some dr \<Rightarrow>
                      not_checked_recently now seconds (lrs i) \<and>
                      update_token dr = dirty_token dr)
             (retention_candidate_repositories d)))"

definition retention_ledger :: "string \<times> string" where
  "retention_ledger = (''lsif_last_retention_scan'', ''last_retention_scan_at'')"

definition repositoryIDsForRetentionScanQuery :: "timestamp \<Rightarrow> int \<Rightarrow> int \<Rightarrow> int list statement" where
  "repositoryIDsForRetentionScanQuery now seconds limit d =
     (let lrs = scan_ledger d retention_ledger in
      case retention_repositories_cte lrs now seconds limit d of
        Inl e \<Rightarrow> Inl e
      | Inr ids \<Rightarrow>
          Inr (ids,
               d\<lparr>scan_ledger :=
                   (scan_ledger d)(retention_ledger := upsert_last_scan now ids lrs)\<rparr>))"

definition SetRepositoriesForRetentionScanWithTime ::
  "string option \<Rightarrow> duration \<Rightarrow> int \<Rightarrow> timestamp \<Rightarrow> db \<Rightarrow> (error + int list) \<times> db" where
  "SetRepositoriesForRetentionScanWithTime fault processDelay limit now d =
     ScanInts
       (Query fault
          (repositoryIDsForRetentionScanQuery now (processDelay sdiv Second) limit)
          d)"

text \<open>The variant without a time argument reads the clock (\<^verbatim>\<open>timeutil.Now()\<close>).\<close>

definition SetRepositoriesForRetentionScan ::
  "string option \<Rightarrow> timestamp \<Rightarrow> duration \<Rightarrow> int \<Rightarrow> db \<Rightarrow> (error + int list) \<times> db" where
  "SetRepositoriesForRetentionScan fault clock processDelay limit d =
     (let now = clock in
      ScanInts
        (Query fault
           (repositoryIDsForRetentionScanQuery now (processDelay sdiv Second) limit)
           d))"

subsection \<open>GetDirtyRepositories\<close>

text \<open>
  The rows of \<^verbatim>\<open>lsif_dirty_repositories ldr INNER JOIN repo ON repo.id = ldr.repository_id
  WHERE ldr.dirty_token > ldr.update_token AND repo.deleted_at IS NULL AND repo.blocked IS NULL\<close>,
  which both \<^verbatim>\<open>dirtyRepositoriesQuery\<close> and \<^verbatim>\<open>maxStaleAgeQuery\<close> select from.
\<close>

definition stale_rows :: "db \<Rightarrow> (int \<times> dirty_row) list" where
  "stale_rows d =
     concat
       (map
          (\<lambda>r. case lsif_dirty_repositories d (repo_id r) of
                 None \<Rightarrow> []
               | Some ldr \<Rightarrow>
                   if dirty_token ldr > update_token ldr \<and> deleted_at r = None \<and>
                      blocked r = None
                   then [(repo_id r, ldr)]
                   else [])
          (repo d))"

definition dirtyRepositoriesQuery :: "(int \<times> int) list statement" where
  "dirtyRepositoriesQuery d =
     Inr (map (\<lambda>(i, ldr). (i, dirty_token ldr)) (stale_rows d), d)"

text \<open>
  Modelled from the spec: \<^verbatim>\<open>scanIntPairs\<close> is not under src/. It collects the rows in a
  \<^verbatim>\<open>map[int]int\<close>, a later row for a key replacing an earlier one (section 4.1 of the
  spec: repository-id to dirty-token pairs).
\<close>

definition scanIntPairs :: "(error + (int \<times> int) list) \<times> db \<Rightarrow> (error + (int \<rightharpoonup> int)) \<times> db" where
  "scanIntPairs res =
     (case res of
        (Inl e, d) \<Rightarrow> (Inl e, d)
      | (Inr rows, d) \<Rightarrow> (Inr (fold (\<lambda>(k, v) m. m(k \<mapsto> v)) rows Map.empty), d))"

definition GetDirtyRepositories :: "string option \<Rightarrow> db \<Rightarrow> (error + (int \<rightharpoonup> int)) \<times> db" where
  "GetDirtyRepositories fault d =
     (case scanIntPairs (Query fault dirtyRepositoriesQuery d) of
        (Inl err, d') \<Rightarrow> (Inl err, d')
      | (Inr repositories, d') \<Rightarrow> (Inr repositories, d'))"

subsection \<open>GetRepositoriesMaxStaleAge\<close>

text \<open>
  \<^verbatim>\<open>EXTRACT(EPOCH FROM NOW() - ldr.set_dirty_at)::integer\<close>: the interval in seconds,
  rounded to the nearest integer, and an error outside the 32-bit range. How Postgres rounds
  an exact half depends on its version (to even from double precision, away from zero
  from numeric), so the rule is a parameter.
\<close>

datatype rounding = HalfEven | HalfAwayFromZero

definition round_seconds :: "rounding \<Rightarrow> int \<Rightarrow> int" where
  "round_seconds ties us =
     (let q = us div second_interval; r = us mod second_interval in
      if 2 * r < second_interval then q
      else if 2 * r > second_interval then q + 1
      else (case ties of
              HalfEven \<Rightarrow> if even q then q else q + 1
            | HalfAwayFromZero \<Rightarrow> if 0 \<le> us then q + 1 else q))"

definition epoch_integer :: "rounding \<Rightarrow> int \<Rightarrow> error + int" where
  "epoch_integer ties us =
     (let n = round_seconds ties us in
      if n < - (2 ^ 31) \<or> 2 ^ 31 \<le> n then Inl (StoreError ''integer out of range'')
      else Inr n)"

fun all_rows :: "(error + 'a) list \<Rightarrow> error + 'a list" where
  "all_rows [] = Inr []"
| "all_rows (Inl e # _) = Inl e"
| "all_rows (Inr x # rest) =
     (case all_rows rest of Inl e \<Rightarrow> Inl e | Inr xs \<Rightarrow> Inr (x # xs))"

text \<open>\<^verbatim>\<open>SELECT ... AS age ... ORDER BY age DESC LIMIT 1\<close>\<close>

definition maxStaleAgeQuery :: "timestamp \<Rightarrow> rounding \<Rightarrow> int list statement" where
  "maxStaleAgeQuery NOW ties d =
     (case all_rows (map (\<lambda>(i, ldr). epoch_integer ties (NOW - set_dirty_at ldr)) (stale_rows d)) of
        Inl e \<Rightarrow> Inl e
      | Inr ages \<Rightarrow>
          (case sql_limit 1 (rev (sort ages)) of
             Inl e \<Rightarrow> Inl e
           | Inr rows \<Rightarrow> Inr (rows, d)))"

definition GetRepositoriesMaxStaleAge ::
  "string option \<Rightarrow> timestamp \<Rightarrow> rounding \<Rightarrow> db \<Rightarrow> (error + duration) \<times> db" where
  "GetRepositoriesMaxStaleAge fault NOW ties d =
     (case ScanFirst 0 (Query fault (maxStaleAgeQuery NOW ties) d) of
        (Inl err, d') \<Rightarrow> (Inl err, d')
      | (Inr (ageSeconds, ok), d') \<Rightarrow>
          if \<not> ok then (Inr 0, d') else (Inr (ageSeconds * Second), d'))"

subsection \<open>A small instance\<close>

text \<open>
  Four repositories (2 is soft-deleted, 4 is blocked), a fixed-id policy for repository 1, a
  global policy, a pattern policy matching repository 3, and one earlier index scan of
  repository 1 at time 0.
\<close>

definition index_ledger :: "string \<times> string" where
  "index_ledger = (''lsif_last_index_scan'', ''last_index_scan_at'')"

definition example_db :: db where
  "example_db =
     \<lparr>repo =
        [\<lparr>repo_id = 1, repo_name = ''github.com/a/one'', deleted_at = None, blocked = None,
          stars = Some 5\<rparr>,
         \<lparr>repo_id = 2, repo_name = ''github.com/a/two'', deleted_at = Some 7, blocked = None,
          stars = None\<rparr>,
         \<lparr>repo_id = 3, repo_name = ''github.com/a/three'', deleted_at = None, blocked = None,
          stars = Some 9\<rparr>,
         \<lparr>repo_id = 4, repo_name = ''github.com/a/four'', deleted_at = None,
          blocked = Some ''abuse'', stars = Some 1\<rparr>],
      lsif_configuration_policies =
        [\<lparr>policy_id = 1, repository_id = Some 1, repository_patterns = None,
          indexing_enabled = True\<rparr>,
         \<lparr>policy_id = 2, repository_id = None, repository_patterns = None,
          indexing_enabled = True\<rparr>,
         \<lparr>policy_id = 3, repository_id = None, repository_patterns = Some [''github.com/a/t*''],
          indexing_enabled = True\<rparr>],
      lsif_configuration_policies_repository_pattern_lookup =
        [\<lparr>lookup_policy_id = 3, lookup_repo_id = 3\<rparr>],
      lsif_uploads =
        [\<lparr>upload_id = 1, upload_repository_id = 1, upload_state = ''completed''\<rparr>,
         \<lparr>upload_id = 2, upload_repository_id = 3, upload_state = ''completed''\<rparr>,
         \<lparr>upload_id = 3, upload_repository_id = 3, upload_state = ''queued''\<rparr>,
         \<lparr>upload_id = 4, upload_repository_id = 4, upload_state = ''completed''\<rparr>],
      lsif_dirty_repositories =
        [1 \<mapsto> \<lparr>dirty_token = 2, update_token = 1, set_dirty_at = 0\<rparr>,
         3 \<mapsto> \<lparr>dirty_token = 4, update_token = 4, set_dirty_at = 10\<rparr>],
      scan_ledger = (\<lambda>_. Map.empty)(index_ledger := [1 \<mapsto> 0])\<rparr>"

text \<open>The instance after an index scan at time 5000000 has claimed repositories 1 and 3.\<close>

definition example_db_claimed :: db where
  "example_db_claimed =
     example_db\<lparr>scan_ledger :=
       (scan_ledger example_db)(index_ledger := [1 \<mapsto> 5000000, 3 \<mapsto> 5000000])\<rparr>"

section \<open>Properties\<close>

subsection \<open>The database handle\<close>

lemma Query_None:
  "Query None stmt d =
     (case stmt d of Inl e \<Rightarrow> (Inl e, d) | Inr (rows, d') \<Rightarrow> (Inr rows, d'))"
  by (simp add: Query_def)

lemma Query_Some: "Query (Some msg) stmt d = (Inl (StoreError msg), d)"
  by (simp add: Query_def)

lemma Query_Inl_unchanged: "Query fault stmt d = (Inl e, d') \<Longrightarrow> d' = d"
  by (auto simp: Query_def split: option.splits sum.splits prod.splits)

lemma Query_Inr: "Query fault stmt d = (Inr x, d') \<Longrightarrow> fault = None \<and> stmt d = Inr (x, d')"
  by (auto simp: Query_def split: option.splits sum.splits prod.splits)

lemma upsert_last_scan_apply:
  "upsert_last_scan now ids lrs = (\<lambda>i. if i \<in> set ids then Some now else lrs i)"
  unfolding upsert_last_scan_def
  by (induction ids arbitrary: lrs) (auto simp: fun_eq_iff)

lemma sql_limit_Inr: "sql_limit n rows = Inr ids \<Longrightarrow> 0 \<le> n \<and> ids = take (nat n) rows"
  by (auto simp: sql_limit_def split: if_splits)

lemma sql_limit_nonneg: "0 \<le> n \<Longrightarrow> sql_limit n rows = Inr (take (nat n) rows)"
  by (simp add: sql_limit_def)

text \<open>Unfolding rules for evaluating the scans on a concrete database.\<close>

lemmas index_scan_defs =
  GetRepositoriesForIndexScan_def ScanInts_def Query_def getRepositoriesForIndexScanQuery_def
  repositories_matching_policy_def global_policy_repositories_def global_policy_exists_def
  stars_order_def sql_limit_def fixed_policy_repositories_def pattern_policy_repositories_def
  candidate_repositories_def repositories_cte_def not_checked_recently_def scan_order_def
  List.map_filter_def Second_def second_interval_def Let_def index_ledger_def

lemmas retention_scan_defs =
  SetRepositoriesForRetentionScanWithTime_def SetRepositoriesForRetentionScan_def ScanInts_def
  Query_def repositoryIDsForRetentionScanQuery_def retention_repositories_cte_def
  retention_candidate_repositories_def retention_ledger_def sql_limit_def
  not_checked_recently_def scan_order_def Second_def second_interval_def Let_def index_ledger_def

subsection \<open>Marking a repository dirty\<close>

text \<open>
  C4. A call of SetRepositoryAsDirty for repository \<open>R\<close> that the store executes returns no
  error, leaves every other dirty record as it was, creates the record with
  \<open>dirty_token = 1\<close> and \<open>update_token = 0\<close> when there is none, and otherwise adds one to
  \<open>dirty_token\<close>, keeps \<open>update_token\<close>, and sets \<open>set_dirty_at\<close> to the current time
  exactly when the old record was clean (\<open>update_token = dirty_token\<close>), leaving it
  unchanged otherwise. Hence, when the record satisfies the data model's invariant
  \<open>update_token \<le> dirty_token\<close> (or is absent), a second call right after the first leaves
  \<open>set_dirty_at\<close> as the first call left it, while \<open>dirty_token\<close> grows by one in each call.
\<close>

theorem SetRepositoryAsDirty_tokens:
  assumes call: "SetRepositoryAsDirty None NOW dflt R d = (err, d')"
  shows "err = None \<and>
    (\<forall>R'. R' \<noteq> R \<longrightarrow> lsif_dirty_repositories d' R' = lsif_dirty_repositories d R') \<and>
    (lsif_dirty_repositories d R = None \<longrightarrow>
       lsif_dirty_repositories d' R =
         Some \<lparr>dirty_token = 1, update_token = 0, set_dirty_at = dflt\<rparr>) \<and>
    (\<forall>old. lsif_dirty_repositories d R = Some old \<longrightarrow>
       lsif_dirty_repositories d' R =
         Some \<lparr>dirty_token = dirty_token old + 1, update_token = update_token old,
               set_dirty_at =
                 (if update_token old = dirty_token old then NOW else set_dirty_at old)\<rparr>) \<and>
    ((\<forall>old. lsif_dirty_repositories d R = Some old \<longrightarrow> update_token old \<le> dirty_token old) \<longrightarrow>
       (\<forall>NOW' dflt'. \<exists>first second.
          lsif_dirty_repositories d' R = Some first \<and>
          lsif_dirty_repositories (snd (SetRepositoryAsDirty None NOW' dflt' R d')) R =
            Some second \<and>
          set_dirty_at second = set_dirty_at first \<and>
          dirty_token second = dirty_token first + 1 \<and>
          dirty_token first =
            (case lsif_dirty_repositories d R of None \<Rightarrow> 1 | Some old \<Rightarrow> dirty_token old + 1)))"
proof -
  have d': "d' = d\<lparr>lsif_dirty_repositories := (lsif_dirty_repositories d)(R \<mapsto>
      (case lsif_dirty_repositories d R of
         None \<Rightarrow> \<lparr>dirty_token = 1, update_token = 0, set_dirty_at = dflt\<rparr>
       | Some old \<Rightarrow> old\<lparr>dirty_token := dirty_token old + 1,
           set_dirty_at := (if update_token old = dirty_token old then NOW else set_dirty_at old)\<rparr>))\<rparr>"
    and err: "err = None"
    using call
    by (simp_all add: SetRepositoryAsDirty_def Exec_def Query_None setRepositoryAsDirtyQuery_def
          Let_def)
  have again: "lsif_dirty_repositories (snd (SetRepositoryAsDirty None NOW' dflt' R d')) R =
      Some (case lsif_dirty_repositories d' R of
         None \<Rightarrow> \<lparr>dirty_token = 1, update_token = 0, set_dirty_at = dflt'\<rparr>
       | Some old \<Rightarrow> old\<lparr>dirty_token := dirty_token old + 1,
           set_dirty_at := (if update_token old = dirty_token old then NOW' else set_dirty_at old)\<rparr>)"
    for NOW' dflt'
    by (simp add: SetRepositoryAsDirty_def Exec_def Query_None setRepositoryAsDirtyQuery_def
          Let_def)
  show ?thesis
  proof (cases "lsif_dirty_repositories d R")
    case None
    then show ?thesis using err by (simp add: again) (simp add: d')
  next
    case (Some old)
    then show ?thesis using err by (simp add: again) (auto simp add: d')
  qed
qed

theorem SetRepositoryAsDirty_tokens_witness:
  "\<exists>first second.
     lsif_dirty_repositories (snd (SetRepositoryAsDirty None 50 60 1 example_db)) 1 = Some first \<and>
     lsif_dirty_repositories
       (snd (SetRepositoryAsDirty None 70 80 1
          (snd (SetRepositoryAsDirty None 50 60 1 example_db)))) 1 = Some second \<and>
     first = \<lparr>dirty_token = 3, update_token = 1, set_dirty_at = 0\<rparr> \<and>
     set_dirty_at second = set_dirty_at first \<and> dirty_token second = dirty_token first + 1"
proof -
  note t = SetRepositoryAsDirty_tokens [OF surjective_pairing, of 50 60 1 example_db]
  have old: "lsif_dirty_repositories example_db 1 =
      Some \<lparr>dirty_token = 2, update_token = 1, set_dirty_at = 0\<rparr>"
    by (simp add: example_db_def)
  from t old have first:
    "lsif_dirty_repositories (snd (SetRepositoryAsDirty None 50 60 1 example_db)) 1 =
       Some \<lparr>dirty_token = 3, update_token = 1, set_dirty_at = 0\<rparr>"
    by simp
  from t old have "\<forall>NOW' dflt'. \<exists>first second.
      lsif_dirty_repositories (snd (SetRepositoryAsDirty None 50 60 1 example_db)) 1 = Some first \<and>
      lsif_dirty_repositories
        (snd (SetRepositoryAsDirty None NOW' dflt' 1
           (snd (SetRepositoryAsDirty None 50 60 1 example_db)))) 1 = Some second \<and>
      set_dirty_at second = set_dirty_at first \<and>
      dirty_token second = dirty_token first + 1 \<and> dirty_token first = 3"
    by fastforce
  then obtain f s where
    "lsif_dirty_repositories (snd (SetRepositoryAsDirty None 50 60 1 example_db)) 1 = Some f"
    "lsif_dirty_repositories
        (snd (SetRepositoryAsDirty None 70 80 1
           (snd (SetRepositoryAsDirty None 50 60 1 example_db)))) 1 = Some s"
    "set_dirty_at s = set_dirty_at f" "dirty_token s = dirty_token f + 1"
    by blast
  with first show ?thesis by simp
qed

subsection \<open>Repository names\<close>

lemma find_filter: "find P xs = (case filter P xs of [] \<Rightarrow> None | x # _ \<Rightarrow> Some x)"
  by (induction xs) auto

lemma RepoName_find:
  "RepoName None i d =
     ((case find (\<lambda>r. repo_id r = i) (repo d) of
         None \<Rightarrow> Inl ErrUnknownRepository
       | Some r \<Rightarrow> Inr (repo_name r)), d)"
  by (cases "filter (\<lambda>r. repo_id r = i) (repo d)")
     (simp_all add: find_filter RepoName_def ScanFirst_def Query_None repoNameQuery_def)

lemma find_distinct_key:
  "distinct (map f xs) \<Longrightarrow> x \<in> set xs \<Longrightarrow> find (\<lambda>y. f y = f x) xs = Some x"
  by (induction xs) (auto simp: image_iff)

text \<open>
  C8, as the code has it. When the store executes the statement: for a repository id with no
  row in \<open>repo\<close>, RepoName fails with ErrUnknownRepository (an error, not an empty result);
  for an id with a row (ids being unique), soft-deleted or not, it returns that row's name.
  The database is left as it was.
\<close>

theorem RepoName_row:
  "(\<not> (\<exists>r \<in> set (repo d). repo_id r = i) \<longrightarrow>
      RepoName None i d = (Inl ErrUnknownRepository, d)) \<and>
   (distinct (map repo_id (repo d)) \<longrightarrow>
      (\<forall>r \<in> set (repo d). repo_id r = i \<longrightarrow> RepoName None i d = (Inr (repo_name r), d)))"
proof (intro conjI impI ballI)
  assume "\<not> (\<exists>r \<in> set (repo d). repo_id r = i)"
  then have "find (\<lambda>r. repo_id r = i) (repo d) = None"
    by (simp add: find_None_iff)
  then show "RepoName None i d = (Inl ErrUnknownRepository, d)"
    by (simp add: RepoName_find)
next
  fix r assume "distinct (map repo_id (repo d))" "r \<in> set (repo d)" "repo_id r = i"
  then have "find (\<lambda>y. repo_id y = i) (repo d) = Some r"
    using find_distinct_key [of repo_id "repo d" r] by simp
  then show "RepoName None i d = (Inr (repo_name r), d)"
    by (simp add: RepoName_find)
qed

theorem RepoName_row_witness:
  "RepoName None 5 example_db = (Inl ErrUnknownRepository, example_db) \<and>
   RepoName None 3 example_db = (Inr ''github.com/a/three'', example_db)"
  using RepoName_row [of example_db 5] RepoName_row [of example_db 3]
  by (simp add: example_db_def)

text \<open>
  C8 as stated fails: repository 2 of the instance is soft-deleted, and RepoName returns its
  name.
\<close>

theorem RepoName_soft_deleted_counterexample:
  "deleted_at (repo example_db ! 1) = Some 7 \<and> repo_id (repo example_db ! 1) = 2 \<and>
   fst (RepoName None 2 example_db) = Inr ''github.com/a/two'' \<and>
   fst (RepoName None 2 example_db) \<noteq> Inl ErrUnknownRepository"
  by (simp add: example_db_def RepoName_find)

subsection \<open>Claiming the selected repositories\<close>

text \<open>
  C1. Whatever a call of GetRepositoriesForIndexScan or of
  SetRepositoriesForRetentionScanWithTime returns: if it returns repository ids, the database
  after the call is the database before it with the ledger column of the call set to \<open>now\<close>
  for exactly the returned ids, every other ledger entry and every other table being as
  before; if it returns an error, the database is as before. When the store fails, the error
  is the store's, no id is returned and nothing is written.
\<close>

theorem scan_claims_ledger:
  assumes index: "GetRepositoriesForIndexScan fault table column processDelay allowGlobalPolicies
      repositoryMatchLimit limit now d = (res, d')"
    and retention: "SetRepositoriesForRetentionScanWithTime fault processDelay limit now d = (res\<^sub>r, d\<^sub>r)"
  shows "(case res of
            Inl e \<Rightarrow> d' = d
          | Inr ids \<Rightarrow>
              d' = d\<lparr>scan_ledger := (scan_ledger d)((table, column) :=
                     (\<lambda>i. if i \<in> set ids then Some now else scan_ledger d (table, column) i))\<rparr>) \<and>
         (case res\<^sub>r of
            Inl e \<Rightarrow> d\<^sub>r = d
          | Inr ids \<Rightarrow>
              d\<^sub>r = d\<lparr>scan_ledger := (scan_ledger d)(retention_ledger :=
                     (\<lambda>i. if i \<in> set ids then Some now else scan_ledger d retention_ledger i))\<rparr>) \<and>
         (\<forall>msg. fault = Some msg \<longrightarrow>
            res = Inl (StoreError msg) \<and> res\<^sub>r = Inl (StoreError msg) \<and> d' = d \<and> d\<^sub>r = d)"
proof (intro conjI allI impI)
  show "case res of
            Inl e \<Rightarrow> d' = d
          | Inr ids \<Rightarrow>
              d' = d\<lparr>scan_ledger := (scan_ledger d)((table, column) :=
                     (\<lambda>i. if i \<in> set ids then Some now else scan_ledger d (table, column) i))\<rparr>"
  proof (cases res)
    case (Inl e)
    with index show ?thesis
      by (auto simp: GetRepositoriesForIndexScan_def ScanInts_def dest: Query_Inl_unchanged)
  next
    case (Inr ids)
    with index have "getRepositoriesForIndexScanQuery column allowGlobalPolicies
        repositoryMatchLimit table now (processDelay sdiv Second) limit d = Inr (ids, d')"
      by (auto simp: GetRepositoriesForIndexScan_def ScanInts_def dest: Query_Inr)
    then show ?thesis using Inr
      by (auto simp: getRepositoriesForIndexScanQuery_def Let_def upsert_last_scan_apply
            split: sum.splits)
  qed
next
  show "case res\<^sub>r of
            Inl e \<Rightarrow> d\<^sub>r = d
          | Inr ids \<Rightarrow>
              d\<^sub>r = d\<lparr>scan_ledger := (scan_ledger d)(retention_ledger :=
                     (\<lambda>i. if i \<in> set ids then Some now else scan_ledger d retention_ledger i))\<rparr>"
  proof (cases res\<^sub>r)
    case (Inl e)
    with retention show ?thesis
      by (auto simp: SetRepositoriesForRetentionScanWithTime_def ScanInts_def
            dest: Query_Inl_unchanged)
  next
    case (Inr ids)
    with retention have "repositoryIDsForRetentionScanQuery now (processDelay sdiv Second) limit d =
        Inr (ids, d\<^sub>r)"
      by (auto simp: SetRepositoriesForRetentionScanWithTime_def ScanInts_def dest: Query_Inr)
    then show ?thesis using Inr
      by (auto simp: repositoryIDsForRetentionScanQuery_def Let_def upsert_last_scan_apply
            split: sum.splits)
  qed
next
  fix msg assume "fault = Some msg"
  with index retention show "res = Inl (StoreError msg)" "res\<^sub>r = Inl (StoreError msg)" "d' = d" "d\<^sub>r = d"
    by (auto simp: GetRepositoriesForIndexScan_def SetRepositoriesForRetentionScanWithTime_def
          ScanInts_def Query_Some)
qed

theorem scan_claims_ledger_witness:
  "fst (GetRepositoriesForIndexScan None ''lsif_last_index_scan'' ''last_index_scan_at''
     3000000000 False None 10 5000000 example_db) = Inr [3, 1] \<and>
   scan_ledger (snd (GetRepositoriesForIndexScan None ''lsif_last_index_scan'' ''last_index_scan_at''
     3000000000 False None 10 5000000 example_db)) index_ledger =
     (\<lambda>i. if i \<in> {3, 1} then Some 5000000 else scan_ledger example_db index_ledger i) \<and>
   fst (SetRepositoriesForRetentionScanWithTime None 3000000000 10 5000000 example_db) = Inr [3] \<and>
   scan_ledger (snd (SetRepositoriesForRetentionScanWithTime None 3000000000 10 5000000 example_db))
     retention_ledger = [3 \<mapsto> 5000000]"
proof -
  note t = scan_claims_ledger [OF surjective_pairing surjective_pairing,
      of None "''lsif_last_index_scan''" "''last_index_scan_at''" 3000000000 False None 10 5000000
         example_db]
  have i: "fst (GetRepositoriesForIndexScan None ''lsif_last_index_scan'' ''last_index_scan_at''
     3000000000 False None 10 5000000 example_db) = Inr [3, 1]"
    by (simp add: index_scan_defs example_db_def)
  have r: "fst (SetRepositoriesForRetentionScanWithTime None 3000000000 10 5000000 example_db) = Inr [3]"
    by (simp add: retention_scan_defs example_db_def)
  have e: "scan_ledger example_db retention_ledger = Map.empty"
    by (simp add: example_db_def retention_ledger_def index_ledger_def)
  from t show ?thesis
    unfolding i r by (auto simp add: index_ledger_def e fun_eq_iff)
qed

subsection \<open>Retention scans select repositories with completed uploads and a fresh commit graph\<close>

lemma retention_cte_members:
  assumes "retention_repositories_cte lrs now seconds limit d = Inr ids" and "i \<in> set ids"
  shows "(\<exists>u \<in> set (lsif_uploads d). upload_repository_id u = i \<and> upload_state u = ''completed'') \<and>
         (\<exists>dr. lsif_dirty_repositories d i = Some dr \<and> update_token dr = dirty_token dr) \<and>
         not_checked_recently now seconds (lrs i)"
proof -
  from assms have "i \<in> set (filter
             (\<lambda>i. case lsif_dirty_repositories d i of
                    None \<Rightarrow> False
                  | Some dr \<Rightarrow>
                      not_checked_recently now seconds (lrs i) \<and>
                      update_token dr = dirty_token dr)
             (retention_candidate_repositories d))"
    by (auto simp: retention_repositories_cte_def dest!: sql_limit_Inr in_set_takeD)
  then show ?thesis
    by (auto simp: retention_candidate_repositories_def split: option.splits)
qed

text \<open>
  C9. Every repository id returned by SetRepositoriesForRetentionScanWithTime or by
  SetRepositoriesForRetentionScan has an upload in state \<^verbatim>\<open>completed\<close> and a dirty record
  with \<open>update_token = dirty_token\<close>; so a repository without a dirty record is not returned.
\<close>

theorem retention_scan_selects_fresh:
  assumes "SetRepositoriesForRetentionScanWithTime fault processDelay limit now d = (Inr ids, d') \<or>
           SetRepositoriesForRetentionScan fault now processDelay limit d = (Inr ids, d')"
  shows "\<forall>i \<in> set ids.
           (\<exists>u \<in> set (lsif_uploads d). upload_repository_id u = i \<and> upload_state u = ''completed'') \<and>
           (\<exists>dr. lsif_dirty_repositories d i = Some dr \<and> update_token dr = dirty_token dr)"
proof -
  from assms have "repositoryIDsForRetentionScanQuery now (processDelay sdiv Second) limit d =
      Inr (ids, d')"
    by (auto simp: SetRepositoriesForRetentionScanWithTime_def SetRepositoriesForRetentionScan_def
          ScanInts_def Let_def dest: Query_Inr)
  then have "retention_repositories_cte (scan_ledger d retention_ledger) now
      (processDelay sdiv Second) limit d = Inr ids"
    by (auto simp: repositoryIDsForRetentionScanQuery_def Let_def split: sum.splits)
  then show ?thesis
    using retention_cte_members by blast
qed

theorem retention_scan_selects_fresh_witness:
  "fst (SetRepositoriesForRetentionScanWithTime None 3000000000 10 5000000 example_db) = Inr [3] \<and>
   (\<exists>u \<in> set (lsif_uploads example_db).
      upload_repository_id u = 3 \<and> upload_state u = ''completed'') \<and>
   (\<exists>dr. lsif_dirty_repositories example_db 3 = Some dr \<and> update_token dr = dirty_token dr)"
proof -
  have f: "fst (SetRepositoriesForRetentionScanWithTime None 3000000000 10 5000000 example_db) =
      Inr [3]"
    by (simp add: retention_scan_defs example_db_def)
  then have r: "SetRepositoriesForRetentionScanWithTime None 3000000000 10 5000000 example_db =
     (Inr [3], snd (SetRepositoriesForRetentionScanWithTime None 3000000000 10 5000000 example_db))"
    by (simp add: prod_eq_iff)
  from retention_scan_selects_fresh [OF disjI1, OF r] f show ?thesis by simp
qed

subsection \<open>Dirty repositories\<close>

lemma set_stale_rows:
  "set (stale_rows d) =
     {(repo_id r, ldr) | r ldr. r \<in> set (repo d) \<and> lsif_dirty_repositories d (repo_id r) = Some ldr \<and>
        update_token ldr < dirty_token ldr \<and> deleted_at r = None \<and> blocked r = None}"
  by (auto simp: stale_rows_def split: option.splits if_splits)

lemma fold_upd_functional:
  assumes "\<forall>(k, v) \<in> set rows. v = f k"
  shows "fold (\<lambda>(k, v) m. m(k \<mapsto> v)) rows m0 =
           (\<lambda>k. if k \<in> fst ` set rows then Some (f k) else m0 k)"
  using assms
  by (induction rows arbitrary: m0) (auto simp: fun_eq_iff)

text \<open>
  C5. When the store executes the statement, GetDirtyRepositories returns a map that holds
  \<open>i \<mapsto> t\<close> exactly when \<open>i\<close> is the id of a repository row that is neither soft-deleted
  nor blocked and the dirty record of \<open>i\<close> has \<open>dirty_token > update_token\<close> and
  \<open>dirty_token = t\<close>. Repository ids being unique, no soft-deleted or blocked repository is
  in the map, and neither is one with \<open>dirty_token = update_token\<close>.
\<close>

theorem GetDirtyRepositories_stale:
  "\<exists>m. GetDirtyRepositories None d = (Inr m, d) \<and>
     (\<forall>i t. m i = Some t \<longleftrightarrow>
        (\<exists>r \<in> set (repo d). repo_id r = i \<and> deleted_at r = None \<and> blocked r = None) \<and>
        (\<exists>ldr. lsif_dirty_repositories d i = Some ldr \<and> update_token ldr < dirty_token ldr \<and>
           t = dirty_token ldr)) \<and>
     (distinct (map repo_id (repo d)) \<longrightarrow>
        (\<forall>r \<in> set (repo d). deleted_at r \<noteq> None \<or> blocked r \<noteq> None \<longrightarrow> m (repo_id r) = None))"
proof -
  let ?rows = "map (\<lambda>(i, ldr). (i, dirty_token ldr)) (stale_rows d)"
  let ?f = "\<lambda>i. case lsif_dirty_repositories d i of None \<Rightarrow> 0 | Some ldr \<Rightarrow> dirty_token ldr"
  let ?m = "fold (\<lambda>(k, v) m. m(k \<mapsto> v)) ?rows Map.empty"
  have call: "GetDirtyRepositories None d = (Inr ?m, d)"
    by (simp add: GetDirtyRepositories_def scanIntPairs_def Query_None dirtyRepositoriesQuery_def)
  have "\<forall>(k, v) \<in> set ?rows. v = ?f k"
    by (auto simp: set_stale_rows)
  then have m: "?m = (\<lambda>k. if k \<in> fst ` set ?rows then Some (?f k) else None)"
    by (rule fold_upd_functional)
  have keys: "i \<in> fst ` set ?rows \<longleftrightarrow>
      (\<exists>r \<in> set (repo d). repo_id r = i \<and> deleted_at r = None \<and> blocked r = None) \<and>
      (\<exists>ldr. lsif_dirty_repositories d i = Some ldr \<and> update_token ldr < dirty_token ldr)" for i
    by (force simp: set_stale_rows image_iff)
  have iff: "?m i = Some t \<longleftrightarrow>
        (\<exists>r \<in> set (repo d). repo_id r = i \<and> deleted_at r = None \<and> blocked r = None) \<and>
        (\<exists>ldr. lsif_dirty_repositories d i = Some ldr \<and> update_token ldr < dirty_token ldr \<and>
           t = dirty_token ldr)" for i t
    unfolding m using keys [of i] by auto
  have excl: "?m (repo_id r) = None"
    if dist: "distinct (map repo_id (repo d))" and r: "r \<in> set (repo d)"
      and flag: "deleted_at r \<noteq> None \<or> blocked r \<noteq> None" for r
  proof (rule ccontr)
    assume "?m (repo_id r) \<noteq> None"
    then obtain t where "?m (repo_id r) = Some t" by blast
    then obtain r' where r': "r' \<in> set (repo d)" "repo_id r' = repo_id r"
        "deleted_at r' = None" "blocked r' = None"
      using iff [of "repo_id r" t] by blast
    from dist r r' have "r' = r"
      by (meson distinct_map inj_onD)
    with r' flag show False by simp
  qed
  from call iff excl show ?thesis by blast
qed

theorem GetDirtyRepositories_stale_witness:
  "\<exists>m. GetDirtyRepositories None example_db = (Inr m, example_db) \<and> m 1 = Some 2 \<and> m 3 = None \<and>
     m 2 = None \<and> m 4 = None"
proof -
  from GetDirtyRepositories_stale [of example_db] obtain m where
    m: "GetDirtyRepositories None example_db = (Inr m, example_db)"
    and iff: "\<And>i t. m i = Some t \<longleftrightarrow>
        (\<exists>r \<in> set (repo example_db). repo_id r = i \<and> deleted_at r = None \<and> blocked r = None) \<and>
        (\<exists>ldr. lsif_dirty_repositories example_db i = Some ldr \<and> update_token ldr < dirty_token ldr \<and>
           t = dirty_token ldr)"
    and excl: "distinct (map repo_id (repo example_db)) \<longrightarrow>
        (\<forall>r \<in> set (repo example_db). deleted_at r \<noteq> None \<or> blocked r \<noteq> None \<longrightarrow> m (repo_id r) = None)"
    by blast
  have "m 1 = Some 2" by (simp add: iff example_db_def)
  moreover have "m i \<noteq> Some t" if "i = 3 \<or> i = 2" for i t
    using that iff [of i t] by (auto simp: example_db_def)
  then have "m 3 = None" "m 2 = None"
    by (simp_all add: not_Some_eq [symmetric] del: not_Some_eq not_None_eq)
  moreover have "m 4 = None"
    using excl by (simp add: example_db_def)
  ultimately show ?thesis using m by blast
qed

subsection \<open>The process delay counts in whole seconds\<close>


lemma sdiv_nonneg: "0 \<le> a \<Longrightarrow> 0 < b \<Longrightarrow> a sdiv b = a div (b::int)"
  by (simp add: signed_divide_int_def sgn_if)

subsection \<open>The staleness gate\<close>

lemma take_misses:
  assumes "x \<in> set xs" "x \<notin> set (take n xs)"
  shows "length (take n xs) = n \<and> x \<in> set (drop n xs)"
proof -
  from assms have "x \<in> set (drop n xs)"
    by (metis Un_iff append_take_drop_id set_append)
  moreover from assms have "n < length xs"
    by (cases "n < length xs") auto
  ultimately show ?thesis by simp
qed

lemma sorted_take_le_drop:
  assumes "sorted (map f xs)" "y \<in> set (take n xs)" "x \<in> set (drop n xs)"
  shows "f y \<le> f x"
proof -
  have "sorted (map f (take n xs) @ map f (drop n xs))"
    using assms(1) by (simp flip: map_append)
  with assms(2,3) show ?thesis
    by (auto simp: sorted_append)
qed

lemma limited_selection:
  assumes ids: "ids = take n (sort_key f (filter P xs))"
  shows "\<not> P i \<Longrightarrow> i \<notin> set ids"
    and "i \<in> set xs \<Longrightarrow> P i \<Longrightarrow>
           i \<in> set ids \<or> (length ids = n \<and> (\<forall>j \<in> set ids. f j \<le> f i))"
proof -
  show "\<not> P i \<Longrightarrow> i \<notin> set ids"
    using ids by (auto dest: in_set_takeD)
  assume "i \<in> set xs" "P i"
  then have mem: "i \<in> set (sort_key f (filter P xs))" by simp
  show "i \<in> set ids \<or> (length ids = n \<and> (\<forall>j \<in> set ids. f j \<le> f i))"
  proof (cases "i \<in> set ids")
    case False
    with mem ids have *: "length ids = n" "i \<in> set (drop n (sort_key f (filter P xs)))"
      using take_misses [of i "sort_key f (filter P xs)" n] by simp_all
    have "sorted (map f (sort_key f (filter P xs)))" by simp
    then have "f j \<le> f i" if "j \<in> set ids" for j
      using that ids * by (intro sorted_take_le_drop [of f "sort_key f (filter P xs)" j n i]) simp_all
    with * show ?thesis by simp
  qed simp
qed

lemma index_scan_Inr:
  assumes "GetRepositoriesForIndexScan None table column processDelay allowGlobalPolicies
      repositoryMatchLimit limit now d = (Inr ids, d')"
  shows "\<exists>matching.
      repositories_matching_policy allowGlobalPolicies repositoryMatchLimit d = Inr matching \<and>
      0 \<le> limit \<and>
      ids = take (nat limit)
        (sort_key (scan_order (scan_ledger d (table, column)))
           (filter (\<lambda>i. not_checked_recently now (processDelay sdiv Second)
                          (scan_ledger d (table, column) i))
              (candidate_repositories matching d))) \<and>
      d' = d\<lparr>scan_ledger := (scan_ledger d)((table, column) :=
              upsert_last_scan now ids (scan_ledger d (table, column)))\<rparr>"
proof -
  from assms have "getRepositoriesForIndexScanQuery column allowGlobalPolicies
      repositoryMatchLimit table now (processDelay sdiv Second) limit d = Inr (ids, d')"
    by (auto simp: GetRepositoriesForIndexScan_def ScanInts_def dest: Query_Inr)
  then show ?thesis
    by (auto simp: getRepositoriesForIndexScanQuery_def repositories_cte_def Let_def
          split: sum.splits dest!: sql_limit_Inr)
qed

lemma retention_scan_Inr:
  assumes "SetRepositoriesForRetentionScanWithTime None processDelay limit now d = (Inr ids, d')"
  shows "0 \<le> limit \<and>
      ids = take (nat limit)
        (sort_key (scan_order (scan_ledger d retention_ledger))
           (filter
             (\<lambda>i. case lsif_dirty_repositories d i of
                    None \<Rightarrow> False
                  | Some dr \<Rightarrow>
                      not_checked_recently now (processDelay sdiv Second)
                        (scan_ledger d retention_ledger i) \<and>
                      update_token dr = dirty_token dr)
             (retention_candidate_repositories d))) \<and>
      d' = d\<lparr>scan_ledger := (scan_ledger d)(retention_ledger :=
              upsert_last_scan now ids (scan_ledger d retention_ledger))\<rparr>"
proof -
  from assms have "repositoryIDsForRetentionScanQuery now (processDelay sdiv Second) limit d =
      Inr (ids, d')"
    by (auto simp: SetRepositoriesForRetentionScanWithTime_def ScanInts_def dest: Query_Inr)
  then show ?thesis
    by (auto simp: repositoryIDsForRetentionScanQuery_def retention_repositories_cte_def Let_def
          split: sum.splits dest!: sql_limit_Inr)
qed

lemma policy_branches_scan_ledger_update:
  "global_policy_repositories a l (d\<lparr>scan_ledger := x\<rparr>) = global_policy_repositories a l d"
  "fixed_policy_repositories (d\<lparr>scan_ledger := x\<rparr>) = fixed_policy_repositories d"
  "pattern_policy_repositories (d\<lparr>scan_ledger := x\<rparr>) = pattern_policy_repositories d"
  by (simp_all add: global_policy_repositories_def global_policy_exists_def
        fixed_policy_repositories_def pattern_policy_repositories_def)

lemma policy_tables_scan_ledger_update [simp]:
  "repositories_matching_policy a l (d\<lparr>scan_ledger := x\<rparr>) = repositories_matching_policy a l d"
  "candidate_repositories m (d\<lparr>scan_ledger := x\<rparr>) = candidate_repositories m d"
  by (simp_all add: repositories_matching_policy_def policy_branches_scan_ledger_update
        candidate_repositories_def cong: sum.case_cong)

lemma index_scan_gate:
  assumes call: "GetRepositoriesForIndexScan None table column processDelay allowGlobalPolicies
      repositoryMatchLimit limit now d = (Inr ids, d')"
    and matching: "repositories_matching_policy allowGlobalPolicies repositoryMatchLimit d = Inr matching"
    and i: "i \<in> set (candidate_repositories matching d)"
  shows "(\<forall>t. scan_ledger d (table, column) i = Some t \<and>
              now - t \<le> (processDelay sdiv Second) * second_interval \<longrightarrow> i \<notin> set ids) \<and>
         (scan_ledger d (table, column) i = None \<or>
          (\<exists>t. scan_ledger d (table, column) i = Some t \<and>
               now - t > (processDelay sdiv Second) * second_interval) \<longrightarrow>
            i \<in> set ids \<or>
            (int (length ids) = limit \<and>
             (\<forall>j \<in> set ids. scan_order (scan_ledger d (table, column)) j \<le>
                             scan_order (scan_ledger d (table, column)) i)))"
proof -
  let ?lrs = "scan_ledger d (table, column)"
  let ?P = "\<lambda>i. not_checked_recently now (processDelay sdiv Second) (?lrs i)"
  from index_scan_Inr [OF call] matching have limit: "0 \<le> limit"
    and ids: "ids = take (nat limit) (sort_key (scan_order ?lrs)
        (filter ?P (candidate_repositories matching d)))"
    by auto
  note sel = limited_selection [OF ids]
  have "i \<notin> set ids" if "?lrs i = Some t" "now - t \<le> (processDelay sdiv Second) * second_interval" for t
    using that by (intro sel(1)) (simp add: not_checked_recently_def)
  moreover have "i \<in> set ids \<or> (int (length ids) = limit \<and>
      (\<forall>j \<in> set ids. scan_order ?lrs j \<le> scan_order ?lrs i))"
    if "?lrs i = None \<or> (\<exists>t. ?lrs i = Some t \<and> now - t > (processDelay sdiv Second) * second_interval)"
  proof -
    from that have "?P i" by (auto simp: not_checked_recently_def)
    from sel(2) [OF i this] limit show ?thesis by auto
  qed
  ultimately show ?thesis by blast
qed

lemma retention_scan_gate:
  assumes call: "SetRepositoriesForRetentionScanWithTime None processDelay limit now d = (Inr ids, d')"
    and i: "i \<in> set (retention_candidate_repositories d)"
    and fresh: "lsif_dirty_repositories d i = Some dr" "update_token dr = dirty_token dr"
  shows "(\<forall>t. scan_ledger d retention_ledger i = Some t \<and>
              now - t \<le> (processDelay sdiv Second) * second_interval \<longrightarrow> i \<notin> set ids) \<and>
         (scan_ledger d retention_ledger i = None \<or>
          (\<exists>t. scan_ledger d retention_ledger i = Some t \<and>
               now - t > (processDelay sdiv Second) * second_interval) \<longrightarrow>
            i \<in> set ids \<or>
            (int (length ids) = limit \<and>
             (\<forall>j \<in> set ids. scan_order (scan_ledger d retention_ledger) j \<le>
                             scan_order (scan_ledger d retention_ledger) i)))"
proof -
  let ?lrs = "scan_ledger d retention_ledger"
  let ?P = "\<lambda>i. case lsif_dirty_repositories d i of
                    None \<Rightarrow> False
                  | Some dr \<Rightarrow>
                      not_checked_recently now (processDelay sdiv Second) (?lrs i) \<and>
                      update_token dr = dirty_token dr"
  from retention_scan_Inr [OF call] have limit: "0 \<le> limit"
    and ids: "ids = take (nat limit) (sort_key (scan_order ?lrs)
        (filter ?P (retention_candidate_repositories d)))"
    by auto
  note sel = limited_selection [OF ids]
  have "i \<notin> set ids" if "?lrs i = Some t" "now - t \<le> (processDelay sdiv Second) * second_interval" for t
    using that fresh by (intro sel(1)) (simp add: not_checked_recently_def)
  moreover have "i \<in> set ids \<or> (int (length ids) = limit \<and>
      (\<forall>j \<in> set ids. scan_order ?lrs j \<le> scan_order ?lrs i))"
    if "?lrs i = None \<or> (\<exists>t. ?lrs i = Some t \<and> now - t > (processDelay sdiv Second) * second_interval)"
  proof -
    from that fresh have "?P i" by (auto simp: not_checked_recently_def)
    from sel(2) [OF i this] limit show ?thesis by auto
  qed
  ultimately show ?thesis by blast
qed





text \<open>
  Calls that follow one another: with a delay that is not negative, a second call for the
  same ledger and the same time returns none of the ids the first call returned. How
  Postgres interleaves two statements that overlap in time is outside this embedding.
\<close>

lemma successive_scans_disjoint:
  assumes first: "GetRepositoriesForIndexScan None table column processDelay allowGlobalPolicies
      repositoryMatchLimit limit now d = (Inr claimed, d\<^sub>1)"
    and second: "GetRepositoriesForIndexScan None table column processDelay allowGlobalPolicies'
      repositoryMatchLimit' limit' now d\<^sub>1 = (Inr ids, d\<^sub>2)"
    and delay: "0 \<le> processDelay"
  shows "set claimed \<inter> set ids = {}"
proof -
  from index_scan_Inr [OF first] have d\<^sub>1:
    "d\<^sub>1 = d\<lparr>scan_ledger := (scan_ledger d)((table, column) :=
        upsert_last_scan now claimed (scan_ledger d (table, column)))\<rparr>"
    by blast
  from index_scan_Inr [OF second] obtain matching where
    ids: "ids = take (nat limit')
        (sort_key (scan_order (scan_ledger d\<^sub>1 (table, column)))
           (filter (\<lambda>i. not_checked_recently now (processDelay sdiv Second)
                          (scan_ledger d\<^sub>1 (table, column) i))
              (candidate_repositories matching d\<^sub>1)))"
    by blast
  have "0 \<le> processDelay sdiv Second"
    using delay by (simp add: sdiv_nonneg Second_def pos_imp_zdiv_nonneg_iff)
  then have "\<not> not_checked_recently now (processDelay sdiv Second)
      (scan_ledger d\<^sub>1 (table, column) i)" if "i \<in> set claimed" for i
    using that
    by (simp add: d\<^sub>1 upsert_last_scan_apply not_checked_recently_def second_interval_def)
  with limited_selection(1) [OF ids] show ?thesis by blast
qed

lemma example_first_scan:
  "fst (GetRepositoriesForIndexScan None ''lsif_last_index_scan'' ''last_index_scan_at''
     3000000000 False None 10 5000000 example_db) = Inr [3, 1]"
  by (simp add: index_scan_defs example_db_def signed_divide_int_def)

lemma example_first_scan_db:
  "snd (GetRepositoriesForIndexScan None ''lsif_last_index_scan'' ''last_index_scan_at''
     3000000000 False None 10 5000000 example_db) =
   example_db\<lparr>scan_ledger := (scan_ledger example_db)(index_ledger := [1 \<mapsto> 5000000, 3 \<mapsto> 5000000])\<rparr>"
  by (simp add: index_scan_defs example_db_def signed_divide_int_def upsert_last_scan_def fun_upd_twist)

lemma example_first_scan_full:
  "GetRepositoriesForIndexScan None ''lsif_last_index_scan'' ''last_index_scan_at''
     3000000000 False None 10 5000000 example_db = (Inr [3, 1], example_db_claimed)"
  using example_first_scan example_first_scan_db
  by (simp add: prod_eq_iff example_db_claimed_def)

lemma example_second_scan_early:
  "fst (GetRepositoriesForIndexScan None ''lsif_last_index_scan'' ''last_index_scan_at''
     3000000000 False None 10 8000000 example_db_claimed) = Inr []"
  by (simp add: index_scan_defs example_db_def example_db_claimed_def signed_divide_int_def)

lemma example_second_scan_late:
  "fst (GetRepositoriesForIndexScan None ''lsif_last_index_scan'' ''last_index_scan_at''
     3000000000 False None 10 8000001 example_db_claimed) = Inr [1, 3]"
  by (simp add: index_scan_defs example_db_def example_db_claimed_def signed_divide_int_def)

lemma example_retention_scan:
  "fst (SetRepositoriesForRetentionScanWithTime None 3000000000 10 5000000 example_db) = Inr [3]"
  by (simp add: retention_scan_defs example_db_def signed_divide_int_def)

text \<open>
  The gate over two calls. A repository claimed by a call at \<open>T\<close> is not returned by the
  same call at a time \<open>now\<close> with \<open>now - T\<close> at most the delay truncated to whole seconds,
  and is returned (unless the limit is filled by repositories before it in the order) once
  \<open>now - T\<close> is above the truncated delay; within one call the same holds of every eligible
  repository and its ledger entry, and of the retention scan.
\<close>


theorem staleness_gate_whole_seconds:
  assumes first: "GetRepositoriesForIndexScan None table column processDelay allowGlobalPolicies
      repositoryMatchLimit limit T d = (Inr claimed, d\<^sub>1)"
    and again: "GetRepositoriesForIndexScan None table column processDelay allowGlobalPolicies
      repositoryMatchLimit limit' now d\<^sub>1 = (Inr ids, d\<^sub>2)"
    and retention: "SetRepositoriesForRetentionScanWithTime None processDelay limit T d = (Inr ids\<^sub>r, d\<^sub>r)"
  shows
    "(\<forall>matching. repositories_matching_policy allowGlobalPolicies repositoryMatchLimit d = Inr matching \<longrightarrow>
        (\<forall>i \<in> set (candidate_repositories matching d).
           (\<forall>t. scan_ledger d (table, column) i = Some t \<and>
                T - t \<le> (processDelay sdiv Second) * second_interval \<longrightarrow> i \<notin> set claimed) \<and>
           (scan_ledger d (table, column) i = None \<or>
            (\<exists>t. scan_ledger d (table, column) i = Some t \<and>
                 T - t > (processDelay sdiv Second) * second_interval) \<longrightarrow>
              i \<in> set claimed \<or>
              (int (length claimed) = limit \<and>
               (\<forall>j \<in> set claimed. scan_order (scan_ledger d (table, column)) j \<le>
                                   scan_order (scan_ledger d (table, column)) i))))) \<and>
     (\<forall>i \<in> set claimed.
        (now - T \<le> (processDelay sdiv Second) * second_interval \<longrightarrow> i \<notin> set ids) \<and>
        (now - T > (processDelay sdiv Second) * second_interval \<longrightarrow>
           i \<in> set ids \<or>
           (int (length ids) = limit' \<and>
            (\<forall>j \<in> set ids. scan_order (scan_ledger d\<^sub>1 (table, column)) j \<le> (Some T, i))))) \<and>
     (\<forall>i \<in> set (retention_candidate_repositories d).
        (\<exists>dr. lsif_dirty_repositories d i = Some dr \<and> update_token dr = dirty_token dr) \<longrightarrow>
           (\<forall>t. scan_ledger d retention_ledger i = Some t \<and>
                T - t \<le> (processDelay sdiv Second) * second_interval \<longrightarrow> i \<notin> set ids\<^sub>r) \<and>
           (scan_ledger d retention_ledger i = None \<or>
            (\<exists>t. scan_ledger d retention_ledger i = Some t \<and>
                 T - t > (processDelay sdiv Second) * second_interval) \<longrightarrow>
              i \<in> set ids\<^sub>r \<or>
              (int (length ids\<^sub>r) = limit \<and>
               (\<forall>j \<in> set ids\<^sub>r. scan_order (scan_ledger d retention_ledger) j \<le>
                                 scan_order (scan_ledger d retention_ledger) i))))"
proof (intro conjI)
  show "\<forall>matching. repositories_matching_policy allowGlobalPolicies repositoryMatchLimit d = Inr matching \<longrightarrow>
        (\<forall>i \<in> set (candidate_repositories matching d).
           (\<forall>t. scan_ledger d (table, column) i = Some t \<and>
                T - t \<le> (processDelay sdiv Second) * second_interval \<longrightarrow> i \<notin> set claimed) \<and>
           (scan_ledger d (table, column) i = None \<or>
            (\<exists>t. scan_ledger d (table, column) i = Some t \<and>
                 T - t > (processDelay sdiv Second) * second_interval) \<longrightarrow>
              i \<in> set claimed \<or>
              (int (length claimed) = limit \<and>
               (\<forall>j \<in> set claimed. scan_order (scan_ledger d (table, column)) j \<le>
                                   scan_order (scan_ledger d (table, column)) i))))"
    using index_scan_gate [OF first] by blast
next
  from index_scan_Inr [OF first] obtain matching where
    matching: "repositories_matching_policy allowGlobalPolicies repositoryMatchLimit d = Inr matching"
    and claimed: "claimed = take (nat limit)
        (sort_key (scan_order (scan_ledger d (table, column)))
           (filter (\<lambda>i. not_checked_recently T (processDelay sdiv Second)
                          (scan_ledger d (table, column) i))
              (candidate_repositories matching d)))"
    and d\<^sub>1: "d\<^sub>1 = d\<lparr>scan_ledger := (scan_ledger d)((table, column) :=
              upsert_last_scan T claimed (scan_ledger d (table, column)))\<rparr>"
    by blast
  have matching\<^sub>1:
    "repositories_matching_policy allowGlobalPolicies repositoryMatchLimit d\<^sub>1 = Inr matching"
    by (simp add: d\<^sub>1 matching)
  show "\<forall>i \<in> set claimed.
        (now - T \<le> (processDelay sdiv Second) * second_interval \<longrightarrow> i \<notin> set ids) \<and>
        (now - T > (processDelay sdiv Second) * second_interval \<longrightarrow>
           i \<in> set ids \<or>
           (int (length ids) = limit' \<and>
            (\<forall>j \<in> set ids. scan_order (scan_ledger d\<^sub>1 (table, column)) j \<le> (Some T, i))))"
  proof
    fix i assume i: "i \<in> set claimed"
    then have "i \<in> set (candidate_repositories matching d)"
      unfolding claimed by (auto dest: in_set_takeD)
    then have cand: "i \<in> set (candidate_repositories matching d\<^sub>1)"
      by (simp add: d\<^sub>1)
    have led: "scan_ledger d\<^sub>1 (table, column) i = Some T"
      using i by (simp add: d\<^sub>1 upsert_last_scan_apply)
    from index_scan_gate [OF again matching\<^sub>1 cand] led
    show "(now - T \<le> (processDelay sdiv Second) * second_interval \<longrightarrow> i \<notin> set ids) \<and>
        (now - T > (processDelay sdiv Second) * second_interval \<longrightarrow>
           i \<in> set ids \<or>
           (int (length ids) = limit' \<and>
            (\<forall>j \<in> set ids. scan_order (scan_ledger d\<^sub>1 (table, column)) j \<le> (Some T, i))))"
      by (simp add: scan_order_def)
  qed
next
  show "\<forall>i \<in> set (retention_candidate_repositories d).
        (\<exists>dr. lsif_dirty_repositories d i = Some dr \<and> update_token dr = dirty_token dr) \<longrightarrow>
           (\<forall>t. scan_ledger d retention_ledger i = Some t \<and>
                T - t \<le> (processDelay sdiv Second) * second_interval \<longrightarrow> i \<notin> set ids\<^sub>r) \<and>
           (scan_ledger d retention_ledger i = None \<or>
            (\<exists>t. scan_ledger d retention_ledger i = Some t \<and>
                 T - t > (processDelay sdiv Second) * second_interval) \<longrightarrow>
              i \<in> set ids\<^sub>r \<or>
              (int (length ids\<^sub>r) = limit \<and>
               (\<forall>j \<in> set ids\<^sub>r. scan_order (scan_ledger d retention_ledger) j \<le>
                                 scan_order (scan_ledger d retention_ledger) i)))"
    using retention_scan_gate [OF retention] by blast
qed

theorem staleness_gate_whole_seconds_witness:
  "fst (GetRepositoriesForIndexScan None ''lsif_last_index_scan'' ''last_index_scan_at''
     3000000000 False None 10 5000000 example_db) = Inr [3, 1] \<and>
   fst (GetRepositoriesForIndexScan None ''lsif_last_index_scan'' ''last_index_scan_at''
     3000000000 False None 10 8000000 example_db_claimed) = Inr [] \<and>
   fst (GetRepositoriesForIndexScan None ''lsif_last_index_scan'' ''last_index_scan_at''
     3000000000 False None 10 8000001 example_db_claimed) = Inr [1, 3] \<and>
   (8000000::int) - 5000000 \<le> (3000000000 sdiv Second) * second_interval \<and>
   (3000000000 sdiv Second) * second_interval < (8000001::int) - 5000000 \<and>
   (3::int) \<notin> set []"
proof -
  have early: "GetRepositoriesForIndexScan None ''lsif_last_index_scan'' ''last_index_scan_at''
     3000000000 False None 10 8000000 example_db_claimed =
     (Inr [], snd (GetRepositoriesForIndexScan None ''lsif_last_index_scan'' ''last_index_scan_at''
     3000000000 False None 10 8000000 example_db_claimed))"
    using example_second_scan_early by (simp add: prod_eq_iff)
  have retention: "SetRepositoriesForRetentionScanWithTime None 3000000000 10 5000000 example_db =
     (Inr [3], snd (SetRepositoriesForRetentionScanWithTime None 3000000000 10 5000000 example_db))"
    using example_retention_scan by (simp add: prod_eq_iff)
  have "\<forall>i \<in> set [3, 1 :: int].
        ((8000000::int) - 5000000 \<le> (3000000000 sdiv Second) * second_interval \<longrightarrow> i \<notin> set [])"
    using staleness_gate_whole_seconds [OF example_first_scan_full early retention] by blast
  then show ?thesis
    using example_first_scan example_second_scan_early example_second_scan_late
    by (simp add: Second_def second_interval_def signed_divide_int_def)
qed

text \<open>
  C3. The claim, which is also what the doc comments of both scans say (repositories
  returned within the given process delay are not returned), is that a repository claimed
  at \<open>T\<close> is excluded while \<open>now - T\<close> is at most the process delay. The code does not
  keep it for a delay that is not a whole number of seconds: with a process delay of
  3.999999999 s, repositories 1 and 3 claimed at 5 s are returned again at 8.000001 s, when
  only 3.000001 s have passed.
\<close>


theorem staleness_gate_subsecond_counterexample:
  "GetRepositoriesForIndexScan None ''lsif_last_index_scan'' ''last_index_scan_at''
     3999999999 False None 10 5000000 example_db = (Inr [3, 1], example_db_claimed) \<and>
   fst (GetRepositoriesForIndexScan None ''lsif_last_index_scan'' ''last_index_scan_at''
     3999999999 False None 10 8000001 example_db_claimed) = Inr [1, 3] \<and>
   (8000001 - 5000000) * 1000 \<le> (3999999999::int)"
  by (simp add: index_scan_defs example_db_def example_db_claimed_def signed_divide_int_def
        upsert_last_scan_def fun_upd_twist)

text \<open>With a delay of half a second there is no window: the ids come back a microsecond later.\<close>

lemma staleness_gate_half_second:
  "GetRepositoriesForIndexScan None ''lsif_last_index_scan'' ''last_index_scan_at''
     500000000 False None 10 5000000 example_db = (Inr [3, 1], example_db_claimed) \<and>
   fst (GetRepositoriesForIndexScan None ''lsif_last_index_scan'' ''last_index_scan_at''
     500000000 False None 10 5000001 example_db_claimed) = Inr [1, 3]"
  by (simp add: index_scan_defs example_db_def example_db_claimed_def signed_divide_int_def
        upsert_last_scan_def fun_upd_twist)

subsection \<open>Global policies that are not allowed\<close>

lemma set_map_filter_Some:
  "set (List.map_filter f xs) = {y. \<exists>x \<in> set xs. f x = Some y}"
  by (induction xs) (auto simp: map_filter_simps split: option.splits)

lemma set_fixed_policy_repositories:
  "set (fixed_policy_repositories d) =
     {i. \<exists>p \<in> set (lsif_configuration_policies d). indexing_enabled p \<and> repository_id p = Some i}"
  by (auto simp: fixed_policy_repositories_def set_map_filter_Some split: if_splits)

lemma set_pattern_policy_repositories:
  "set (pattern_policy_repositories d) =
     {i. \<exists>p \<in> set (lsif_configuration_policies d).
           \<exists>rpl \<in> set (lsif_configuration_policies_repository_pattern_lookup d).
             indexing_enabled p \<and> lookup_policy_id rpl = policy_id p \<and> lookup_repo_id rpl = i}"
  by (auto simp: pattern_policy_repositories_def)

lemma global_policy_repositories_disallowed:
  assumes "\<forall>n. repositoryMatchLimit = Some n \<longrightarrow> 0 \<le> n"
  shows "global_policy_repositories False repositoryMatchLimit d = Inr []"
  using assms
  by (cases repositoryMatchLimit)
     (simp_all add: global_policy_repositories_def global_policy_exists_def sql_limit_def
        list_ex_iff)

text \<open>
  C7. With \<open>allowGlobalPolicies\<close> false, and limits that are not negative, the first branch
  of \<^verbatim>\<open>repositories_matching_policy\<close> is empty whatever the policies are, and a call of
  GetRepositoriesForIndexScan that the store executes returns ids and no error. Every
  returned id is a repository that is neither soft-deleted nor blocked and is named by an
  enabled fixed-id policy or matched by an enabled pattern policy; and every such repository
  that passes the staleness gate is returned, unless the limit is filled.
\<close>

theorem disallowed_global_policies:
  assumes limit: "0 \<le> limit"
    and match_limit: "\<forall>n. repositoryMatchLimit = Some n \<longrightarrow> 0 \<le> n"
  shows
    "global_policy_repositories False repositoryMatchLimit d = Inr [] \<and>
     (\<exists>ids d'.
        GetRepositoriesForIndexScan None table column processDelay False repositoryMatchLimit
          limit now d = (Inr ids, d') \<and>
        (\<forall>i \<in> set ids.
           \<exists>r \<in> set (repo d). repo_id r = i \<and> deleted_at r = None \<and> blocked r = None \<and>
             ((\<exists>p \<in> set (lsif_configuration_policies d).
                 indexing_enabled p \<and> repository_id p = Some i) \<or>
              (\<exists>p \<in> set (lsif_configuration_policies d).
                 \<exists>rpl \<in> set (lsif_configuration_policies_repository_pattern_lookup d).
                   indexing_enabled p \<and> lookup_policy_id rpl = policy_id p \<and>
                   lookup_repo_id rpl = i))) \<and>
        (\<forall>r \<in> set (repo d).
           deleted_at r = None \<and> blocked r = None \<and>
           ((\<exists>p \<in> set (lsif_configuration_policies d).
               indexing_enabled p \<and> repository_id p = Some (repo_id r)) \<or>
            (\<exists>p \<in> set (lsif_configuration_policies d).
               \<exists>rpl \<in> set (lsif_configuration_policies_repository_pattern_lookup d).
                 indexing_enabled p \<and> lookup_policy_id rpl = policy_id p \<and>
                 lookup_repo_id rpl = repo_id r)) \<and>
           not_checked_recently now (processDelay sdiv Second)
             (scan_ledger d (table, column) (repo_id r)) \<longrightarrow>
           repo_id r \<in> set ids \<or> int (length ids) = limit))"
proof -
  let ?matching = "fixed_policy_repositories d @ pattern_policy_repositories d"
  let ?lrs = "scan_ledger d (table, column)"
  let ?P = "\<lambda>i. not_checked_recently now (processDelay sdiv Second) (?lrs i)"
  let ?ids = "take (nat limit) (sort_key (scan_order ?lrs)
      (filter ?P (candidate_repositories ?matching d)))"
  note global = global_policy_repositories_disallowed [OF match_limit, of d]
  then have matching:
    "repositories_matching_policy False repositoryMatchLimit d = Inr ?matching"
    by (simp add: repositories_matching_policy_def)
  have call: "GetRepositoriesForIndexScan None table column processDelay False
      repositoryMatchLimit limit now d =
      (Inr ?ids, d\<lparr>scan_ledger := (scan_ledger d)((table, column) :=
         upsert_last_scan now ?ids ?lrs)\<rparr>)"
    using limit
    by (simp add: GetRepositoriesForIndexScan_def ScanInts_def Query_None
          getRepositoriesForIndexScanQuery_def matching repositories_cte_def sql_limit_nonneg
          Let_def)
  have cand: "set (candidate_repositories ?matching d) =
      {repo_id r | r. r \<in> set (repo d) \<and> deleted_at r = None \<and> blocked r = None \<and>
         ((\<exists>p \<in> set (lsif_configuration_policies d).
             indexing_enabled p \<and> repository_id p = Some (repo_id r)) \<or>
          (\<exists>p \<in> set (lsif_configuration_policies d).
             \<exists>rpl \<in> set (lsif_configuration_policies_repository_pattern_lookup d).
               indexing_enabled p \<and> lookup_policy_id rpl = policy_id p \<and>
               lookup_repo_id rpl = repo_id r))}"
    by (auto simp: candidate_repositories_def set_fixed_policy_repositories
          set_pattern_policy_repositories)
  note sel = limited_selection [of ?ids "nat limit" "scan_order ?lrs" ?P
      "candidate_repositories ?matching d", OF refl]
  have sub: "set ?ids \<subseteq> set (candidate_repositories ?matching d)"
    by (auto dest: in_set_takeD)
  have part1: "\<exists>r \<in> set (repo d). repo_id r = i \<and> deleted_at r = None \<and> blocked r = None \<and>
             ((\<exists>p \<in> set (lsif_configuration_policies d).
                 indexing_enabled p \<and> repository_id p = Some i) \<or>
              (\<exists>p \<in> set (lsif_configuration_policies d).
                 \<exists>rpl \<in> set (lsif_configuration_policies_repository_pattern_lookup d).
                   indexing_enabled p \<and> lookup_policy_id rpl = policy_id p \<and>
                   lookup_repo_id rpl = i))" if "i \<in> set ?ids" for i
  proof -
    from that sub have "i \<in> set (candidate_repositories ?matching d)" by blast
    then show ?thesis unfolding cand by blast
  qed
  have part2: "repo_id r \<in> set ?ids \<or> int (length ?ids) = limit"
    if r: "r \<in> set (repo d)" "deleted_at r = None \<and> blocked r = None \<and>
           ((\<exists>p \<in> set (lsif_configuration_policies d).
               indexing_enabled p \<and> repository_id p = Some (repo_id r)) \<or>
            (\<exists>p \<in> set (lsif_configuration_policies d).
               \<exists>rpl \<in> set (lsif_configuration_policies_repository_pattern_lookup d).
                 indexing_enabled p \<and> lookup_policy_id rpl = policy_id p \<and>
                 lookup_repo_id rpl = repo_id r)) \<and> ?P (repo_id r)" for r
  proof -
    from r have "repo_id r \<in> set (candidate_repositories ?matching d)"
      unfolding cand by blast
    moreover from r have "?P (repo_id r)" by blast
    ultimately have "repo_id r \<in> set ?ids \<or> length ?ids = nat limit"
      using sel(2) [of "repo_id r"] by blast
    with limit show ?thesis by auto
  qed
  from global call part1 part2 show ?thesis by blast
qed

theorem disallowed_global_policies_witness:
  "global_policy_repositories False (Some 1) example_db = Inr [] \<and>
   global_policy_repositories True (Some 1) example_db = Inr [3] \<and>
   fst (GetRepositoriesForIndexScan None ''lsif_last_index_scan'' ''last_index_scan_at''
     3000000000 False (Some 1) 10 5000000 example_db) = Inr [3, 1]"
proof -
  have "global_policy_repositories False (Some 1) example_db = Inr []"
    using disallowed_global_policies [of 10 "Some 1" example_db] by simp
  moreover have "global_policy_repositories True (Some 1) example_db = Inr [3]"
    by (simp add: index_scan_defs example_db_def)
  moreover have "fst (GetRepositoriesForIndexScan None ''lsif_last_index_scan''
      ''last_index_scan_at'' 3000000000 False (Some 1) 10 5000000 example_db) = Inr [3, 1]"
    by (simp add: index_scan_defs example_db_def signed_divide_int_def)
  ultimately show ?thesis by simp
qed

subsection \<open>The longest stale age\<close>

lemma round_seconds_cases:
  "round_seconds ties us = us div second_interval \<and>
     2 * (us mod second_interval) \<le> second_interval \<or>
   round_seconds ties us = us div second_interval + 1 \<and>
     second_interval \<le> 2 * (us mod second_interval)"
  by (cases ties) (auto simp: round_seconds_def Let_def)

lemma round_seconds_near:
  "\<bar>round_seconds ties us * second_interval - us\<bar> * 2 \<le> second_interval"
proof -
  define q r where "q = us div second_interval" and "r = us mod second_interval"
  then have us: "us = q * second_interval + r" and r: "0 \<le> r" "r < second_interval"
    by (simp_all add: second_interval_def)
  from round_seconds_cases [of ties us]
  have "round_seconds ties us = q \<and> 2 * r \<le> second_interval \<or>
        round_seconds ties us = q + 1 \<and> second_interval \<le> 2 * r"
    by (simp add: q_def r_def)
  then show ?thesis
  proof (elim disjE conjE)
    assume "round_seconds ties us = q" "2 * r \<le> second_interval"
    with r show ?thesis by (simp add: us)
  next
    assume "round_seconds ties us = q + 1" "second_interval \<le> 2 * r"
    with r show ?thesis by (simp add: us algebra_simps)
  qed
qed

lemma round_seconds_mono:
  assumes "a \<le> b"
  shows "round_seconds ties a \<le> round_seconds ties b"
proof (cases "a div second_interval < b div second_interval")
  case True
  then show ?thesis
    using round_seconds_cases [of ties a] round_seconds_cases [of ties b] by auto
next
  case False
  have S: "0 < second_interval" by (simp add: second_interval_def)
  from assms have "a div second_interval \<le> b div second_interval"
    using S by (simp add: zdiv_mono1)
  with False have q: "a div second_interval = b div second_interval" by simp
  have "a mod second_interval \<le> b mod second_interval"
    using assms q by (metis add_le_cancel_left mult_div_mod_eq)
  moreover have "0 \<le> a \<longleftrightarrow> 0 \<le> b"
    using q S by (metis pos_imp_zdiv_nonneg_iff)
  ultimately show ?thesis
    using q by (cases ties) (auto simp: round_seconds_def Let_def)
qed

lemma all_rows_Inr:
  "\<forall>x \<in> set xs. f x = Inr (g x) \<Longrightarrow> all_rows (map f xs) = Inr (map g xs)"
  by (induction xs) auto

lemma sorted_last_Max: "sorted xs \<Longrightarrow> xs \<noteq> [] \<Longrightarrow> last xs = Max (set xs)"
  by (induction xs) (auto simp: max_def intro: antisym)

lemma take1_rev_sort:
  "xs \<noteq> [] \<Longrightarrow> take (Suc 0) (rev (sort xs)) = [Max (set xs)]"
proof -
  assume ne: "xs \<noteq> []"
  then have s: "sort xs \<noteq> []" by (metis set_empty set_sort)
  then have "take (Suc 0) (rev (sort xs)) = [last (sort xs)]"
    by (cases "sort xs" rule: rev_cases) simp_all
  also have "last (sort xs) = Max (set (sort xs))"
    using s by (intro sorted_last_Max) simp_all
  finally show ?thesis by simp
qed

lemma epoch_integer_in_range:
  assumes "\<bar>us\<bar> < 2147483647 * second_interval"
  shows "epoch_integer ties us = Inr (round_seconds ties us)"
proof -
  from round_seconds_near [of ties us] assms
  have "round_seconds ties us * 1000000 \<le> us + 500000"
    "us - 500000 \<le> round_seconds ties us * 1000000"
    "us < 2147483647000000" "- 2147483647000000 < us"
    unfolding second_interval_def by (simp_all add: abs_le_iff abs_less_iff)
  then have "- 2147483648 \<le> round_seconds ties us \<and> round_seconds ties us < 2147483648"
    by arith
  then have "- (2 ^ 31) \<le> round_seconds ties us \<and> round_seconds ties us < 2 ^ 31"
    by simp
  then show ?thesis
    by (simp add: epoch_integer_def Let_def)
qed

lemma maxStaleAgeQuery_rows:
  assumes "\<forall>(i, ldr) \<in> set (stale_rows d). \<bar>NOW - set_dirty_at ldr\<bar> < 2147483647 * second_interval"
  shows "maxStaleAgeQuery NOW ties d =
     Inr (if stale_rows d = [] then []
          else [round_seconds ties
                  (Max ((\<lambda>(i, ldr). NOW - set_dirty_at ldr) ` set (stale_rows d)))], d)"
proof -
  let ?us = "\<lambda>(i :: int, ldr). NOW - set_dirty_at ldr"
  let ?ages = "map (\<lambda>row. round_seconds ties (?us row)) (stale_rows d)"
  have "all_rows (map (\<lambda>(i, ldr). epoch_integer ties (NOW - set_dirty_at ldr)) (stale_rows d)) =
      Inr ?ages"
    using assms by (intro all_rows_Inr) (auto simp: epoch_integer_in_range)
  then have q: "maxStaleAgeQuery NOW ties d = Inr (take (Suc 0) (rev (sort ?ages)), d)"
    by (simp add: maxStaleAgeQuery_def sql_limit_def)
  show ?thesis
  proof (cases "stale_rows d = []")
    case True
    then show ?thesis by (simp add: q)
  next
    case False
    then have "take (Suc 0) (rev (sort ?ages)) = [Max (set ?ages)]"
      by (intro take1_rev_sort) simp
    also have "set ?ages = round_seconds ties ` (?us ` set (stale_rows d))"
      by (simp add: image_image)
    also have "Max \<dots> = round_seconds ties (Max (?us ` set (stale_rows d)))"
      using False
      by (intro mono_Max_commute [symmetric]) (simp_all add: mono_def round_seconds_mono)
    finally show ?thesis using False by (simp add: q)
  qed
qed

text \<open>
  C6, as the code has it: the age is a whole number of seconds. When the store executes the
  statement and every age fits the 32-bit integer of the cast, GetRepositoriesMaxStaleAge
  returns zero when no repository is stale, and otherwise the largest \<open>NOW - set_dirty_at\<close>
  over the stale repositories that are neither soft-deleted nor blocked, rounded to the
  nearest second: at most half a second from that largest value.
\<close>

theorem max_stale_age_rounded:
  assumes range:
    "\<forall>(i, ldr) \<in> set (stale_rows d). \<bar>NOW - set_dirty_at ldr\<bar> < 2147483647 * second_interval"
  shows
    "set (stale_rows d) =
       {(repo_id r, ldr) | r ldr. r \<in> set (repo d) \<and>
          lsif_dirty_repositories d (repo_id r) = Some ldr \<and>
          update_token ldr < dirty_token ldr \<and> deleted_at r = None \<and> blocked r = None} \<and>
     (\<exists>age. GetRepositoriesMaxStaleAge None NOW ties d = (Inr age, d) \<and>
        (stale_rows d = [] \<longrightarrow> age = 0) \<and>
        (stale_rows d \<noteq> [] \<longrightarrow>
           age = round_seconds ties
                   (Max ((\<lambda>(i, ldr). NOW - set_dirty_at ldr) ` set (stale_rows d))) * Second \<and>
           \<bar>age - 1000 * Max ((\<lambda>(i, ldr). NOW - set_dirty_at ldr) ` set (stale_rows d))\<bar>
             \<le> 500000000))"
proof -
  let ?M = "Max ((\<lambda>(i, ldr). NOW - set_dirty_at ldr) ` set (stale_rows d))"
  have call: "GetRepositoriesMaxStaleAge None NOW ties d =
      (Inr (if stale_rows d = [] then 0 else round_seconds ties ?M * Second), d)"
    by (simp add: GetRepositoriesMaxStaleAge_def Query_None maxStaleAgeQuery_rows [OF range]
          ScanFirst_def)
  have "\<bar>round_seconds ties ?M * Second - 1000 * ?M\<bar> \<le> 500000000"
    using round_seconds_near [of ties ?M] by (simp add: Second_def second_interval_def)
  with call set_stale_rows [of d] show ?thesis by simp
qed

theorem max_stale_age_rounded_witness:
  "GetRepositoriesMaxStaleAge None 2600000 HalfEven example_db = (Inr 3000000000, example_db) \<and>
   stale_rows example_db = [(1, \<lparr>dirty_token = 2, update_token = 1, set_dirty_at = 0\<rparr>)]"
proof -
  have rows: "stale_rows example_db = [(1, \<lparr>dirty_token = 2, update_token = 1, set_dirty_at = 0\<rparr>)]"
    by (simp add: stale_rows_def example_db_def)
  have "\<forall>(i, ldr) \<in> set (stale_rows example_db).
      \<bar>2600000 - set_dirty_at ldr\<bar> < 2147483647 * second_interval"
    by (simp add: rows second_interval_def)
  from max_stale_age_rounded [OF this, of HalfEven] rows show ?thesis
    by (simp add: round_seconds_def second_interval_def Second_def)
qed

text \<open>
  C6 as stated fails when the largest age is not a whole number of seconds: repository 1 has
  been stale for 1.4 s, and the result is 1 s.
\<close>

theorem max_stale_age_subsecond_counterexample:
  "stale_rows example_db = [(1, \<lparr>dirty_token = 2, update_token = 1, set_dirty_at = 0\<rparr>)] \<and>
   fst (GetRepositoriesMaxStaleAge None 1400000 HalfEven example_db) = Inr 1000000000 \<and>
   fst (GetRepositoriesMaxStaleAge None 1400000 HalfAwayFromZero example_db) = Inr 1000000000 \<and>
   (1400000 - 0) * 1000 \<noteq> (1000000000 :: int)"
  by (simp add: GetRepositoriesMaxStaleAge_def ScanFirst_def Query_def maxStaleAgeQuery_def
        stale_rows_def epoch_integer_def round_seconds_def sql_limit_def second_interval_def
        Second_def Let_def example_db_def)

end
